theory Spec2Isabelle
  imports Main "HOL-Library.Char_ord" "HOL-Library.Sublist"
begin

section \<open>Router adapters: registering an operation's path template\<close>

text \<open>
  \<^verbatim>\<open>huma.Operation\<close> is declared in the core package; the adapters read two of its
  fields, \<^verbatim>\<open>op.Method\<close> and \<^verbatim>\<open>op.Path\<close>. The record below holds those two, and
  every statement is made over the extensible record scheme, so it holds whatever
  further fields an operation carries.
\<close>

record Operation =
  Method :: "string"
  Path :: "string"

text \<open>
  \<^verbatim>\<open>strings.ReplaceAll(s, old, new)\<close> of Go's standard library, for a non-empty
  \<^verbatim>\<open>old\<close>: scanning \<^verbatim>\<open>s\<close> from the left, each occurrence of \<^verbatim>\<open>old\<close> that does not
  overlap an earlier one is replaced by \<^verbatim>\<open>new\<close> and the scan goes on after it
  (Go's loop \<^verbatim>\<open>j = start + Index(s[start:], old); start = j + len(old)\<close>).
  Both adapters pass the one-byte strings \<^verbatim>\<open>"{"\<close> and \<^verbatim>\<open>"}"\<close>. For an empty
  \<^verbatim>\<open>old\<close> Go inserts \<^verbatim>\<open>new\<close> at every UTF-8 rune boundary; no call of this
  repository reaches that branch and it is not modelled (the function below then
  leaves \<^verbatim>\<open>s\<close> as it is).
\<close>

fun ReplaceAll :: "string \<Rightarrow> string \<Rightarrow> string \<Rightarrow> string" where
  "ReplaceAll [] old new = []"
| "ReplaceAll (c # cs) old new =
     (if old \<noteq> [] \<and> prefix old (c # cs)
      then new @ ReplaceAll (drop (length old) (c # cs)) old new
      else c # ReplaceAll cs old new)"

text \<open>
  \<^verbatim>\<open>ginCtx\<close> and \<^verbatim>\<open>fiberCtx\<close>: the operation and the router's own request context
  (\<^verbatim>\<open>*gin.Context\<close>, \<^verbatim>\<open>*fiber.Ctx\<close>: types of the router libraries, a type parameter
  here).
\<close>

record ('m, 'c) ginCtx =
  gin_op :: "'m Operation_scheme"
  gin_orig :: "'c"

record ('m, 'c) fiberCtx =
  fiber_op :: "'m Operation_scheme"
  fiber_orig :: "'c"

text \<open>
  \<^verbatim>\<open>ginAdapter.Handle\<close> (humagin.go, lines 98 to 107). The router's registration
  method \<^verbatim>\<open>a.router.Handle(method, path, handlerFunc)\<close> belongs to the gin library and
  is the parameter \<open>router_Handle\<close>; what \<^verbatim>\<open>Handle\<close> does is the call it makes. The
  handler is a function of the context; the closure handed to the router wraps the
  router's context together with the operation and calls the handler.
\<close>

definition ginAdapter_Handle ::
  "(string \<Rightarrow> string \<Rightarrow> ('c \<Rightarrow> 'e) \<Rightarrow> 'r) \<Rightarrow> 'm Operation_scheme \<Rightarrow>
   (('m, 'c) ginCtx \<Rightarrow> 'e) \<Rightarrow> 'r" where
  "ginAdapter_Handle router_Handle op handler =
     (let path = Path op;
          path = ReplaceAll path ''{'' '':'';
          path = ReplaceAll path ''}'' ''''
      in router_Handle (Method op) path
           (\<lambda>c. handler \<lparr>gin_op = op, gin_orig = c\<rparr>))"

text \<open>
  \<^verbatim>\<open>fiberAdapter.Handle\<close> (humafiber.go, lines 101 to 111): the same rewriting, then
  \<^verbatim>\<open>a.router.Add(method, path, handlerFunc)\<close>; the closure runs the handler and
  returns the \<^verbatim>\<open>nil\<close> error, written \<open>None\<close>.
\<close>

definition fiberAdapter_Handle ::
  "(string \<Rightarrow> string \<Rightarrow> ('c \<Rightarrow> 'e \<times> 'x option) \<Rightarrow> 'r) \<Rightarrow> 'm Operation_scheme \<Rightarrow>
   (('m, 'c) fiberCtx \<Rightarrow> 'e) \<Rightarrow> 'r" where
  "fiberAdapter_Handle router_Add op handler =
     (let path = Path op;
          path = ReplaceAll path ''{'' '':'';
          path = ReplaceAll path ''}'' ''''
      in router_Add (Method op) path
           (\<lambda>c. (handler \<lparr>fiber_op = op, fiber_orig = c\<rparr>, None)))"

section \<open>Header lookup in the test context\<close>

text \<open>
  \<^verbatim>\<open>testContext.Header\<close> (huma_test.go, lines 62 to 64) returns
  \<^verbatim>\<open>ctx.r.Header.Get(name)\<close>, and the test driver fills the request with
  \<^verbatim>\<open>req.Header.Set(k, v)\<close> (lines 202 to 204). Both are methods of Go's
  \<^verbatim>\<open>net/http.Header\<close>, a \<^verbatim>\<open>map[string][]string\<close> whose keys are kept in the canonical
  form computed by \<^verbatim>\<open>net/textproto.CanonicalMIMEHeaderKey\<close>. The definitions of this
  section follow the standard library's code, strings being byte sequences.
\<close>

text \<open>
  \<^verbatim>\<open>validHeaderFieldByte\<close>: the bytes a header field name may hold, the token
  characters of RFC 7230 (digits, ASCII letters and fifteen punctuation marks; the
  apostrophe is byte 0x27 and the grave accent byte 0x60).
\<close>

definition validHeaderFieldByte :: "char \<Rightarrow> bool" where
  "validHeaderFieldByte c =
     ((CHR ''0'' \<le> c \<and> c \<le> CHR ''9'') \<or>
      (CHR ''a'' \<le> c \<and> c \<le> CHR ''z'') \<or>
      (CHR ''A'' \<le> c \<and> c \<le> CHR ''Z'') \<or>
      c \<in> set [CHR ''!'', CHR ''#'', CHR ''$'', CHR ''%'', CHR ''&'', CHR 0x27, CHR ''*'',
                CHR ''+'', CHR ''-'', CHR ''.'', CHR ''^'', CHR ''_'', CHR 0x60, CHR ''|'',
                CHR ''~''])"

text \<open>
  \<^verbatim>\<open>const toLower = 'a' - 'A'\<close>.
\<close>

definition toLower :: nat where
  "toLower = of_char (CHR ''a'') - of_char (CHR ''A'')"

text \<open>
  \<^verbatim>\<open>canonicalMIMEHeaderKey\<close>, first loop: a byte that is not a token byte stops the
  canonicalisation. A space sets \<^verbatim>\<open>noCanon\<close> and the scan goes on; any other such byte
  returns at once (\<^verbatim>\<open>None\<close> here).
\<close>

fun canonicalMIMEHeaderKey_check :: "string \<Rightarrow> bool \<Rightarrow> bool option" where
  "canonicalMIMEHeaderKey_check [] noCanon = Some noCanon"
| "canonicalMIMEHeaderKey_check (c # cs) noCanon =
     (if validHeaderFieldByte c then canonicalMIMEHeaderKey_check cs noCanon
      else if c = CHR '' '' then canonicalMIMEHeaderKey_check cs True
      else None)"

text \<open>
  \<^verbatim>\<open>canonicalMIMEHeaderKey\<close>, second loop: the first letter and every letter after a
  hyphen become upper case, every other letter lower case. \<^verbatim>\<open>c -= toLower\<close> and
  \<^verbatim>\<open>c += toLower\<close> are byte arithmetic (\<^verbatim>\<open>char_of\<close> reduces modulo 256).
\<close>

fun canonicalMIMEHeaderKey_loop :: "bool \<Rightarrow> string \<Rightarrow> string" where
  "canonicalMIMEHeaderKey_loop upper [] = []"
| "canonicalMIMEHeaderKey_loop upper (c # cs) =
     (let c' = (if upper \<and> CHR ''a'' \<le> c \<and> c \<le> CHR ''z''
                then char_of (of_char c - toLower)
                else if \<not> upper \<and> CHR ''A'' \<le> c \<and> c \<le> CHR ''Z''
                then char_of (of_char c + toLower)
                else c)
      in c' # canonicalMIMEHeaderKey_loop (c' = CHR ''-'') cs)"

text \<open>
  \<^verbatim>\<open>canonicalMIMEHeaderKey(a)\<close>: the key and whether it was acceptable. The table of
  common headers that the library consults afterwards returns a string equal to the
  canonical one, so it does not appear here.
\<close>

definition canonicalMIMEHeaderKey :: "string \<Rightarrow> string \<times> bool" where
  "canonicalMIMEHeaderKey a =
     (case canonicalMIMEHeaderKey_check a False of
        None \<Rightarrow> (a, False)
      | Some noCanon \<Rightarrow>
          if noCanon then (a, True)
          else (canonicalMIMEHeaderKey_loop True a, True))"

text \<open>
  \<^verbatim>\<open>CanonicalMIMEHeaderKey(s)\<close>: a first pass returns \<^verbatim>\<open>s\<close> itself at the first byte that
  is not a token byte, calls \<^verbatim>\<open>canonicalMIMEHeaderKey\<close> at the first letter in the wrong
  case, and returns \<^verbatim>\<open>s\<close> when it reaches the end (then \<^verbatim>\<open>s\<close> is canonical already).
\<close>

fun CanonicalMIMEHeaderKey_scan :: "bool \<Rightarrow> string \<Rightarrow> string \<Rightarrow> string" where
  "CanonicalMIMEHeaderKey_scan upper [] s = s"
| "CanonicalMIMEHeaderKey_scan upper (c # cs) s =
     (if \<not> validHeaderFieldByte c then s
      else if upper \<and> CHR ''a'' \<le> c \<and> c \<le> CHR ''z'' then fst (canonicalMIMEHeaderKey s)
      else if \<not> upper \<and> CHR ''A'' \<le> c \<and> c \<le> CHR ''Z'' then fst (canonicalMIMEHeaderKey s)
      else CanonicalMIMEHeaderKey_scan (c = CHR ''-'') cs s)"

definition CanonicalMIMEHeaderKey :: "string \<Rightarrow> string" where
  "CanonicalMIMEHeaderKey s = CanonicalMIMEHeaderKey_scan True s s"

text \<open>
  \<^verbatim>\<open>http.Header\<close>, with \<^verbatim>\<open>Header.Set\<close> and \<^verbatim>\<open>Header.Get\<close>: \<^verbatim>\<open>Set\<close> stores the single
  value under the canonical key, \<^verbatim>\<open>Get\<close> returns the first value under the canonical
  key, or the empty string.
\<close>

type_synonym http_Header = "string \<rightharpoonup> string list"

definition Header_Set :: "http_Header \<Rightarrow> string \<Rightarrow> string \<Rightarrow> http_Header" where
  "Header_Set h key val = h(CanonicalMIMEHeaderKey key \<mapsto> [val])"

definition Header_Get :: "http_Header \<Rightarrow> string \<Rightarrow> string" where
  "Header_Get h key =
     (case h (CanonicalMIMEHeaderKey key) of
        None \<Rightarrow> []
      | Some v \<Rightarrow> (case v of [] \<Rightarrow> [] | x # _ \<Rightarrow> x))"

text \<open>
  \<^verbatim>\<open>http.Request\<close>, of which the header map is read; \<^verbatim>\<open>testContext\<close> with its three
  fields \<^verbatim>\<open>op\<close>, \<^verbatim>\<open>r\<close>, \<^verbatim>\<open>w\<close>; and \<^verbatim>\<open>testContext.Header\<close>.
\<close>

record Request =
  Header :: "http_Header"

record ('o, 'w) testContext =
  ctx_op :: "'o"
  ctx_r :: "Request"
  ctx_w :: "'w"

definition testContext_Header :: "('o, 'w) testContext \<Rightarrow> string \<Rightarrow> string" where
  "testContext_Header ctx name = Header_Get (Header (ctx_r ctx)) name"

text \<open>
  The test driver's loop \<^verbatim>\<open>for k, v := range feature.Headers { req.Header.Set(k, v) }\<close>
  (huma_test.go, lines 202 to 204); the list is the map in the order the iteration
  visits it.
\<close>

fun set_request_headers :: "(string \<times> string) list \<Rightarrow> http_Header \<Rightarrow> http_Header" where
  "set_request_headers [] h = h"
| "set_request_headers ((k, v) # rest) h = set_request_headers rest (Header_Set h k v)"

text \<open>
  Two names differ only in letter case when they agree once every ASCII upper-case
  letter is replaced by its lower-case letter: \<open>map asciiLower a = map asciiLower b\<close>.
\<close>

definition asciiLower :: "char \<Rightarrow> char" where
  "asciiLower c = (if CHR ''A'' \<le> c \<and> c \<le> CHR ''Z'' then char_of (of_char c + toLower) else c)"

text \<open>
  The byte that the second loop of \<^verbatim>\<open>canonicalMIMEHeaderKey\<close> writes, as a function of
  its own (used in the proofs only).
\<close>

definition canonByte :: "bool \<Rightarrow> char \<Rightarrow> char" where
  "canonByte upper c = (if upper \<and> CHR ''a'' \<le> c \<and> c \<le> CHR ''z''
                then char_of (of_char c - toLower)
                else if \<not> upper \<and> CHR ''A'' \<le> c \<and> c \<le> CHR ''Z''
                then char_of (of_char c + toLower)
                else c)"

text \<open>
  Modelled from the spec: what binding a header-sourced field yields (the binder is in
  the core package). The field is left as it was, or set to a value of its declared
  type, or a conversion failure is reported "at a location of the form
  \<^verbatim>\<open>header.<name>\<close>, carrying the offending raw value".
\<close>

datatype 'a bound = NotBound | Bound 'a | BindError string string

text \<open>
  Modelled from the spec: a header-sourced field, with its "declared wire name", its
  \<^verbatim>\<open>default\<close> annotation if it has one, and the conversion of a raw string to "the
  field's declared type" (\<open>None\<close> when the string does not convert).
\<close>

record 'a header_field =
  wire_name :: "string"
  field_default :: "string option"
  field_convert :: "string \<Rightarrow> 'a option"

text \<open>
  Modelled from the spec: the binder's step for one header-sourced field, "read the raw
  string value from the matching source by its declared wire name; if absent and a
  default annotation exists, substitute the default's parsed value", then "convert the
  raw string to the field's declared type". The source is read through the context's
  \<^verbatim>\<open>Header(name string) string\<close>, so an absent header is the empty string.
\<close>

definition bind_header_field :: "'a header_field \<Rightarrow> ('o, 'w) testContext \<Rightarrow> 'a bound" where
  "bind_header_field f ctx =
     (let raw = testContext_Header ctx (wire_name f);
          raw = (if raw = [] then (case field_default f of None \<Rightarrow> [] | Some d \<Rightarrow> d) else raw)
      in if raw = [] then NotBound
         else (case field_convert f raw of
                 Some x \<Rightarrow> Bound x
               | None \<Rightarrow> BindError (''header.'' @ wire_name f) raw))"

section \<open>Path tracker and resolver pipeline\<close>

text \<open>
  The path tracker (\<^verbatim>\<open>PathBuffer\<close>) and the resolver pipeline belong to the core
  package, which the source tree does not hold: it holds the test
  \<^verbatim>\<open>TestNestedResolverWithPath\<close> and the resolver \<^verbatim>\<open>NestedResolversStruct.Resolve\<close>
  (huma_test.go, lines 287 to 326). The resolver is embedded from that code; the tracker
  and the pipeline follow the specification, sections 3 and 4.4.
\<close>

text \<open>
  Modelled from the spec: a segment of the path tracker, "string fields or integer
  indices" (the type is declared in the core package).
\<close>

datatype segment = SegField string | SegIndex nat

text \<open>
  Modelled from the spec: the path tracker, "a mutable, append/pop stack of path
  segments"; the top of the stack is the end of the list.
\<close>

type_synonym PathBuffer = "segment list"

text \<open>
  Modelled from the spec: "push segment" for a field name.
\<close>

definition Push :: "PathBuffer \<Rightarrow> string \<Rightarrow> PathBuffer" where
  "Push pb s = pb @ [SegField s]"

text \<open>
  Modelled from the spec: "push segment" for an integer index.
\<close>

definition PushIndex :: "PathBuffer \<Rightarrow> nat \<Rightarrow> PathBuffer" where
  "PushIndex pb i = pb @ [SegIndex i]"

text \<open>
  Modelled from the spec: "pop" removes the segment pushed last.
\<close>

definition Pop :: "PathBuffer \<Rightarrow> PathBuffer" where
  "Pop pb = butlast pb"

text \<open>
  Modelled from the spec: an index is written in decimal between the brackets
  ("bracketed indices", as in \<^verbatim>\<open>foo[0]\<close>).
\<close>

function decimal :: "nat \<Rightarrow> string" where
  "decimal n = (if n < 10 then [char_of (of_char (CHR ''0'') + n)]
                else decimal (n div 10) @ [char_of (of_char (CHR ''0'') + n mod 10)])"
  by pat_completeness auto
termination
  by (relation "measure id") auto

text \<open>
  Modelled from the spec: "render() yields a canonical location string (dot-separated
  field names, bracketed indices, e.g. body.field1.foo[0].field2)". The first field name
  has no dot before it.
\<close>

fun render_from :: "bool \<Rightarrow> segment list \<Rightarrow> string" where
  "render_from first [] = []"
| "render_from first (SegField s # segs) = (if first then s else ''.'' @ s) @ render_from False segs"
| "render_from first (SegIndex i # segs) = ''['' @ decimal i @ '']'' @ render_from False segs"

definition render :: "PathBuffer \<Rightarrow> string" where
  "render pb = render_from True pb"

text \<open>
  Modelled from the spec: \<^verbatim>\<open>prefix.With(name)\<close>, which the resolver of the test calls, by
  the tracker's "push segment, do work, pop" discipline: the location with the name
  pushed, the tracker itself left as it was.
\<close>

definition With :: "PathBuffer \<Rightarrow> string \<Rightarrow> string" where
  "With pb s = render (Push pb s)"

text \<open>
  Modelled from the spec: the "input value graph" the pipeline walks. A record value
  carries the name of its type and its fields in declaration order, each under the name
  that stands for it in a location; sequences and maps hold nested values, a map in the
  order it is visited.
\<close>

datatype val =
    VString string
  | VInt int
  | VStruct string "(string \<times> val) list"
  | VSeq "val list"
  | VMap "(string \<times> val) list"

text \<open>
  Modelled from the spec: "ErrorDetail: { message: string, location: string (optional),
  value: any (optional) }"; an absent location is the empty string, an absent value is
  \<open>None\<close>.
\<close>

record ErrorDetail =
  Message :: string
  Location :: string
  Value :: "val option"

text \<open>
  Modelled from the spec: the two capability variants, "a path-unaware resolver, invoked
  with only the ambient execution context" and "a path-aware resolver, invoked with the
  ambient context plus the Path Tracker's current prefix at that nesting position"; each
  also receives the record it is a method of.
\<close>

datatype 'c resolver =
    Resolver "'c \<Rightarrow> (string \<times> val) list \<Rightarrow> ErrorDetail list"
  | ResolverWithPath "'c \<Rightarrow> PathBuffer \<Rightarrow> (string \<times> val) list \<Rightarrow> ErrorDetail list"

text \<open>
  Modelled from the spec: the walk of the pipeline, "outer value first, looking for
  fields (at any nesting depth, including inside sequences and maps) whose type
  implements a custom-resolution capability", errors appended "in traversal order (outer
  before inner, declaration order among siblings)". A field pushes its name, a map entry
  its key, a sequence element its index. \<open>cap\<close> gives the capability of a type by the
  type's name.
\<close>

fun resolver_walk :: "(string \<Rightarrow> 'c resolver option) \<Rightarrow> 'c \<Rightarrow> PathBuffer \<Rightarrow> val \<Rightarrow> ErrorDetail list"
  and resolver_walk_members :: "(string \<Rightarrow> 'c resolver option) \<Rightarrow> 'c \<Rightarrow> PathBuffer \<Rightarrow> (string \<times> val) list \<Rightarrow> ErrorDetail list"
  and resolver_walk_items :: "(string \<Rightarrow> 'c resolver option) \<Rightarrow> 'c \<Rightarrow> PathBuffer \<Rightarrow> nat \<Rightarrow> val list \<Rightarrow> ErrorDetail list"
where
  "resolver_walk cap ctx pb (VString s) = []"
| "resolver_walk cap ctx pb (VInt n) = []"
| "resolver_walk cap ctx pb (VStruct ty members) =
     (case cap ty of
        None \<Rightarrow> []
      | Some (Resolver f) \<Rightarrow> f ctx members
      | Some (ResolverWithPath f) \<Rightarrow> f ctx pb members)
     @ resolver_walk_members cap ctx pb members"
| "resolver_walk cap ctx pb (VSeq items) = resolver_walk_items cap ctx pb 0 items"
| "resolver_walk cap ctx pb (VMap entries) = resolver_walk_members cap ctx pb entries"
| "resolver_walk_members cap ctx pb [] = []"
| "resolver_walk_members cap ctx pb ((name, v) # rest) =
     resolver_walk cap ctx (Push pb name) v @ resolver_walk_members cap ctx pb rest"
| "resolver_walk_items cap ctx pb i [] = []"
| "resolver_walk_items cap ctx pb i (v # rest) =
     resolver_walk cap ctx (PushIndex pb i) v @ resolver_walk_items cap ctx pb (Suc i) rest"

text \<open>
  Modelled from the spec: the pipeline starts the walk at the input value with an empty
  tracker.
\<close>

definition ResolverPipeline :: "(string \<Rightarrow> 'c resolver option) \<Rightarrow> 'c \<Rightarrow> val \<Rightarrow> ErrorDetail list" where
  "ResolverPipeline cap ctx input = resolver_walk cap ctx [] input"

text \<open>
  \<^verbatim>\<open>NestedResolversStruct.Resolve\<close> (huma_test.go, lines 291 to 297): one error, located
  at \<^verbatim>\<open>prefix.With("field2")\<close>, with the value of \<^verbatim>\<open>b.Field2\<close>.
\<close>

definition NestedResolversStruct_Resolve ::
  "'c \<Rightarrow> PathBuffer \<Rightarrow> (string \<times> val) list \<Rightarrow> ErrorDetail list" where
  "NestedResolversStruct_Resolve ctx pfx b =
     [\<lparr>Message = ''resolver error'', Location = With pfx ''field2'',
       Value = map_of b ''field2''\<rparr>]"

text \<open>
  The types of the test: \<^verbatim>\<open>NestedResolversStruct\<close> is the only one with a \<^verbatim>\<open>Resolve\<close>
  method, and it is path-aware (line 299).
\<close>

definition test_capabilities :: "string \<Rightarrow> 'c resolver option" where
  "test_capabilities ty =
     (if ty = ''NestedResolversStruct'' then Some (ResolverWithPath NestedResolversStruct_Resolve)
      else None)"

text \<open>
  The input of the test as a value: \<^verbatim>\<open>NestedResolverRequest\<close> holds \<^verbatim>\<open>Body\<close>, whose
  \<^verbatim>\<open>Field1\<close> (\<^verbatim>\<open>json:"field1"\<close>) maps keys to sequences of \<^verbatim>\<open>NestedResolversStruct\<close>,
  each with its \<^verbatim>\<open>Field2\<close> (\<^verbatim>\<open>json:"field2"\<close>). The argument lists the map's entries, each
  key with the \<^verbatim>\<open>field2\<close> strings of its sequence. Modelled from the spec: the body of
  an input stands under the segment \<^verbatim>\<open>body\<close> (locations of body content read
  \<^verbatim>\<open>body.<name>\<close>), a field under its wire name.
\<close>

definition NestedResolverRequest :: "(string \<times> string list) list \<Rightarrow> val" where
  "NestedResolverRequest field1 =
     VStruct ''NestedResolverRequest''
       [(''body'', VStruct ''NestedResolversBody''
          [(''field1'', VMap (map (\<lambda>(k, xs). (k, VSeq (map (\<lambda>s. VStruct ''NestedResolversStruct'' [(''field2'', VString s)]) xs))) field1))])]"

section \<open>Properties of the path rewriting\<close>

lemma ReplaceAll_single:
  "ReplaceAll s [a] new = concat (map (\<lambda>c. if c = a then new else [c]) s)"
  by (induction s) auto

lemma brace_rewrite:
  "ReplaceAll (ReplaceAll p ''{'' '':'') ''}'' '''' =
   concat (map (\<lambda>c. if c = CHR ''{'' then '':'' else if c = CHR ''}'' then [] else [c]) p)"
  by (induction p) (simp_all add: ReplaceAll_single)

lemma brace_rewrite_no_braces:
  "CHR ''{'' \<notin> set (ReplaceAll (ReplaceAll p ''{'' '':'') ''}'' '''') \<and>
   CHR ''}'' \<notin> set (ReplaceAll (ReplaceAll p ''{'' '':'') ''}'' '''')"
  by (simp add: brace_rewrite)

text \<open>
  Claim C9. For every operation, both adapters hand the router the operation's method
  and the path template in which every \<^verbatim>\<open>{\<close> has become \<^verbatim>\<open>:\<close> and every \<^verbatim>\<open>}\<close> has been
  deleted, character by character over the whole string and wherever the braces
  stand; the registered closure wraps the router's context with the operation.
\<close>

theorem adapters_register_rewritten_path:
  "ginAdapter_Handle router_Handle op handler =
     router_Handle (Method op)
       (concat (map (\<lambda>c. if c = CHR ''{'' then '':'' else if c = CHR ''}'' then [] else [c])
                 (Path op)))
       (\<lambda>c. handler \<lparr>gin_op = op, gin_orig = c\<rparr>)
   \<and> fiberAdapter_Handle router_Add op handler' =
     router_Add (Method op)
       (concat (map (\<lambda>c. if c = CHR ''{'' then '':'' else if c = CHR ''}'' then [] else [c])
                 (Path op)))
       (\<lambda>c. (handler' \<lparr>fiber_op = op, fiber_orig = c\<rparr>, None))"
  by (simp add: ginAdapter_Handle_def fiberAdapter_Handle_def brace_rewrite)

lemma errors_id_path_example:
  "ginAdapter_Handle (\<lambda>m p h. (m, p)) \<lparr>Method = ''PUT'', Path = ''/errors/{id}''\<rparr> handler
     = (''PUT'', ''/errors/:id'')
   \<and> fiberAdapter_Handle (\<lambda>m p h. (m, p)) \<lparr>Method = ''PUT'', Path = ''/errors/{id}''\<rparr> handler'
     = (''PUT'', ''/errors/:id'')"
  by (simp add: ginAdapter_Handle_def fiberAdapter_Handle_def)

lemma stray_braces_example:
  "ginAdapter_Handle (\<lambda>m p h. p) \<lparr>Method = ''GET'', Path = ''/a}/{b{c''\<rparr> handler = ''/a/:b:c''"
  by (simp add: ginAdapter_Handle_def)

section \<open>Properties of the header lookup\<close>

lemma check_valid: "list_all validHeaderFieldByte a \<Longrightarrow> canonicalMIMEHeaderKey_check a n = Some n"
  by (induction a) auto

lemma canonical_valid:
  "list_all validHeaderFieldByte a \<Longrightarrow> canonicalMIMEHeaderKey a = (canonicalMIMEHeaderKey_loop True a, True)"
  by (simp add: canonicalMIMEHeaderKey_def check_valid)

lemma scan_valid:
  "list_all validHeaderFieldByte cs \<Longrightarrow>
   (CanonicalMIMEHeaderKey_scan upper cs s = s \<and> canonicalMIMEHeaderKey_loop upper cs = cs)
   \<or> CanonicalMIMEHeaderKey_scan upper cs s = fst (canonicalMIMEHeaderKey s)"
proof (induction cs arbitrary: upper)
  case Nil
  then show ?case by simp
next
  case (Cons c cs)
  then show ?case by (auto simp: Let_def)
qed

lemma Canonical_valid:
  assumes "list_all validHeaderFieldByte s"
  shows "CanonicalMIMEHeaderKey s = canonicalMIMEHeaderKey_loop True s"
  using scan_valid[OF assms, of True s] canonical_valid[OF assms]
  by (auto simp: CanonicalMIMEHeaderKey_def)

lemma of_char_lt_256: "(of_char c :: nat) < 256"
  by (metis of_char_mod_256 mod_less_divisor zero_less_numeral)

lemma char_eq_iff_of_char: "(c = d) = ((of_char c :: nat) = of_char d)"
  by (metis char_of_char)

lemma of_char_asciiLower:
  "(of_char (asciiLower c) :: nat) =
     (if 65 \<le> (of_char c :: nat) \<and> (of_char c :: nat) \<le> 90 then of_char c + 32 else of_char c)"
  using of_char_lt_256[of c]
  by (simp add: asciiLower_def less_eq_char_def toLower_def of_char_of)

lemma of_char_canonByte:
  "(of_char (canonByte upper c) :: nat) =
     (if upper \<and> 97 \<le> (of_char c :: nat) \<and> (of_char c :: nat) \<le> 122 then of_char c - 32
      else if \<not> upper \<and> 65 \<le> (of_char c :: nat) \<and> (of_char c :: nat) \<le> 90 then of_char c + 32
      else of_char c)"
proof -
  have lt: "(of_char c :: nat) < 256" by (rule of_char_lt_256)
  have a: "(of_char c - 32 :: nat) mod 256 = of_char c - 32"
    by (rule mod_less) (use lt in arith)
  have b: "65 \<le> (of_char c :: nat) \<and> (of_char c :: nat) \<le> 90 \<Longrightarrow>
           (of_char c + 32 :: nat) mod 256 = of_char c + 32"
    by simp
  show ?thesis
    by (simp add: canonByte_def less_eq_char_def toLower_def of_char_of a b)
qed

lemma asciiLower_eq_cases:
  assumes "asciiLower c = asciiLower d"
  shows "c = d
       \<or> (65 \<le> (of_char c :: nat) \<and> (of_char c :: nat) \<le> 90 \<and> (of_char d :: nat) = of_char c + 32)
       \<or> (65 \<le> (of_char d :: nat) \<and> (of_char d :: nat) \<le> 90 \<and> (of_char c :: nat) = of_char d + 32)"
proof -
  have "(of_char (asciiLower c) :: nat) = of_char (asciiLower d)"
    using assms by simp
  then have "(of_char c :: nat) = of_char d
       \<or> (65 \<le> (of_char c :: nat) \<and> (of_char c :: nat) \<le> 90 \<and> (of_char d :: nat) = of_char c + 32)
       \<or> (65 \<le> (of_char d :: nat) \<and> (of_char d :: nat) \<le> 90 \<and> (of_char c :: nat) = of_char d + 32)"
    unfolding of_char_asciiLower
    by (simp split: if_splits)
  then show ?thesis
    by (simp only: char_eq_iff_of_char[of c d])
qed

lemma canonByte_fold:
  assumes "asciiLower c = asciiLower d"
  shows "canonByte upper c = canonByte upper d"
proof -
  have "(of_char (canonByte upper c) :: nat) = of_char (canonByte upper d)"
    using asciiLower_eq_cases[OF assms]
    unfolding of_char_canonByte
    by (elim disjE) simp_all
  then show ?thesis
    by (simp only: char_eq_iff_of_char[of "canonByte upper c"])
qed

lemma valid_lower_letter:
  "97 \<le> (of_char c :: nat) \<Longrightarrow> (of_char c :: nat) \<le> 122 \<Longrightarrow> validHeaderFieldByte c"
  by (simp add: validHeaderFieldByte_def less_eq_char_def)

lemma valid_upper_letter:
  "65 \<le> (of_char c :: nat) \<Longrightarrow> (of_char c :: nat) \<le> 90 \<Longrightarrow> validHeaderFieldByte c"
  by (simp add: validHeaderFieldByte_def less_eq_char_def)

lemma valid_fold:
  assumes "asciiLower c = asciiLower d" "validHeaderFieldByte c"
  shows "validHeaderFieldByte d"
  using asciiLower_eq_cases[OF assms(1)]
proof (elim disjE)
  assume "c = d"
  then show ?thesis using assms(2) by simp
next
  assume "65 \<le> (of_char c :: nat) \<and> (of_char c :: nat) \<le> 90 \<and> (of_char d :: nat) = of_char c + 32"
  then show ?thesis by (intro valid_lower_letter) simp_all
next
  assume "65 \<le> (of_char d :: nat) \<and> (of_char d :: nat) \<le> 90 \<and> (of_char c :: nat) = of_char d + 32"
  then show ?thesis by (intro valid_upper_letter) simp_all
qed

lemma loop_fold:
  "map asciiLower k = map asciiLower n \<Longrightarrow>
   canonicalMIMEHeaderKey_loop upper k = canonicalMIMEHeaderKey_loop upper n"
proof (induction k arbitrary: n upper)
  case Nil
  then show ?case by simp
next
  case (Cons c cs)
  from Cons.prems(1) obtain d ds where n: "n = d # ds" "asciiLower c = asciiLower d"
    "map asciiLower cs = map asciiLower ds"
    by (cases n) auto
  have "canonByte upper c = canonByte upper d"
    using n(2) by (rule canonByte_fold)
  then show ?case
    using Cons.IH[OF n(3)] n(1)
    by (simp add: canonByte_def Let_def)
qed

lemma valid_fold_all:
  "map asciiLower k = map asciiLower n \<Longrightarrow> list_all validHeaderFieldByte k \<Longrightarrow>
   list_all validHeaderFieldByte n"
proof (induction k arbitrary: n)
  case Nil
  then show ?case by simp
next
  case (Cons c cs)
  from Cons.prems(1) obtain d ds where n: "n = d # ds" "asciiLower c = asciiLower d"
    "map asciiLower cs = map asciiLower ds"
    by (cases n) auto
  have c: "validHeaderFieldByte c" and cs: "list_all validHeaderFieldByte cs"
    using Cons.prems(2) by simp_all
  have "validHeaderFieldByte d"
    using n(2) c by (rule valid_fold)
  moreover have "list_all validHeaderFieldByte ds"
    using n(3) cs by (rule Cons.IH)
  ultimately show ?case
    unfolding n(1) by simp
qed

lemma Canonical_fold:
  assumes "list_all validHeaderFieldByte wire" "map asciiLower sent = map asciiLower wire"
  shows "CanonicalMIMEHeaderKey sent = CanonicalMIMEHeaderKey wire"
proof -
  have "list_all validHeaderFieldByte sent"
    using assms(2)[symmetric] assms(1) by (rule valid_fold_all)
  then show ?thesis
    using assms by (simp add: Canonical_valid loop_fold[of sent wire])
qed

lemma set_request_headers_at:
  "set_request_headers hs h K =
     (if filter (\<lambda>(k, v). CanonicalMIMEHeaderKey k = K) hs = [] then h K
      else Some [snd (last (filter (\<lambda>(k, v). CanonicalMIMEHeaderKey k = K) hs))])"
proof (induction hs arbitrary: h)
  case Nil
  then show ?case by simp
next
  case (Cons kv hs)
  obtain k v where kv: "kv = (k, v)" by (cases kv)
  show ?case
    unfolding kv
    by (simp add: Cons.IH Header_Set_def)
qed

lemma driver_headers_lookup:
  assumes "list_all validHeaderFieldByte wire" "map asciiLower sent = map asciiLower wire"
    and "(sent, v) \<in> set hs"
    and "\<And>k v'. (k, v') \<in> set hs \<Longrightarrow> CanonicalMIMEHeaderKey k = CanonicalMIMEHeaderKey sent \<Longrightarrow> v' = v"
  shows "testContext_Header \<lparr>ctx_op = op, ctx_r = \<lparr>Header = set_request_headers hs h\<rparr>, ctx_w = w\<rparr> wire = v"
proof -
  let ?K = "CanonicalMIMEHeaderKey wire"
  let ?es = "filter (\<lambda>(k, v). CanonicalMIMEHeaderKey k = ?K) hs"
  have K: "CanonicalMIMEHeaderKey sent = ?K"
    using assms(1,2) by (rule Canonical_fold)
  have mem: "(sent, v) \<in> set ?es"
    using assms(3) K by simp
  have ne: "?es \<noteq> []"
    using mem by (metis empty_iff empty_set)
  obtain k' v' where lk: "last ?es = (k', v')" by (cases "last ?es")
  have "(k', v') \<in> set ?es"
    using last_in_set[OF ne] lk by simp
  then have "(k', v') \<in> set hs" and "CanonicalMIMEHeaderKey k' = CanonicalMIMEHeaderKey sent"
    using K by simp_all
  then have "v' = v" by (rule assms(4))
  then have "snd (last ?es) = v"
    using lk by simp
  then show ?thesis
    using ne by (simp add: testContext_Header_def Header_Get_def set_request_headers_at)
qed

lemma params_test_headers:
  "testContext_Header
     \<lparr>ctx_op = op, ctx_r = \<lparr>Header = set_request_headers
        [(''string'', ''baz''), (''int'', ''789'')] Map.empty\<rparr>, ctx_w = w\<rparr> ''String'' = ''baz''
   \<and> testContext_Header
     \<lparr>ctx_op = op, ctx_r = \<lparr>Header = set_request_headers
        [(''string'', ''baz''), (''int'', ''789'')] Map.empty\<rparr>, ctx_w = w\<rparr> ''Int'' = ''789''
   \<and> testContext_Header
     \<lparr>ctx_op = op, ctx_r = \<lparr>Header = set_request_headers
        [(''int'', ''789''), (''string'', ''baz'')] Map.empty\<rparr>, ctx_w = w\<rparr> ''String'' = ''baz''
   \<and> testContext_Header
     \<lparr>ctx_op = op, ctx_r = \<lparr>Header = set_request_headers
        [(''int'', ''789''), (''string'', ''baz'')] Map.empty\<rparr>, ctx_w = w\<rparr> ''Int'' = ''789''"
proof -
  have a: "CanonicalMIMEHeaderKey ''string'' = ''String''" by code_simp
  have b: "CanonicalMIMEHeaderKey ''int'' = ''Int''" by code_simp
  have c: "CanonicalMIMEHeaderKey ''String'' = ''String''" by code_simp
  have d: "CanonicalMIMEHeaderKey ''Int'' = ''Int''" by code_simp
  show ?thesis
    by (simp add: testContext_Header_def Header_Get_def Header_Set_def a b c d)
qed

lemma Canonical_fold_sent:
  assumes "list_all validHeaderFieldByte sent" "map asciiLower sent = map asciiLower wire"
  shows "CanonicalMIMEHeaderKey sent = CanonicalMIMEHeaderKey wire"
proof -
  have "list_all validHeaderFieldByte wire"
    using assms(2) assms(1) by (rule valid_fold_all)
  then show ?thesis
    using assms(2) by (rule Canonical_fold)
qed

text \<open>
  A name that holds a byte outside the token bytes is not a header field name; the
  library leaves such a key as it is, so it is looked up verbatim.
\<close>

lemma check_True: "canonicalMIMEHeaderKey_check a True \<noteq> Some False"
  by (induction a) auto

lemma check_non_token:
  "\<not> list_all validHeaderFieldByte a \<Longrightarrow> canonicalMIMEHeaderKey_check a n \<noteq> Some False"
  by (induction a arbitrary: n) (auto simp: check_True)

lemma canonical_non_token:
  "\<not> list_all validHeaderFieldByte a \<Longrightarrow> fst (canonicalMIMEHeaderKey a) = a"
  using check_non_token[of a False]
  by (auto simp: canonicalMIMEHeaderKey_def split: option.splits)

lemma scan_cases:
  "CanonicalMIMEHeaderKey_scan upper cs s = s \<or>
   CanonicalMIMEHeaderKey_scan upper cs s = fst (canonicalMIMEHeaderKey s)"
  by (induction cs arbitrary: upper) auto

lemma Canonical_non_token:
  "\<not> list_all validHeaderFieldByte s \<Longrightarrow> CanonicalMIMEHeaderKey s = s"
  using scan_cases[of True s s] canonical_non_token[of s]
  by (auto simp: CanonicalMIMEHeaderKey_def)

text \<open>
  The binder's step on a header that was sent under a name differing from the wire name
  only in letter case: the field is set to the conversion of the value sent (or the
  conversion failure is reported at \<^verbatim>\<open>header.<name>\<close>), whatever the default.
\<close>

lemma bind_header_field_found:
  assumes "list_all validHeaderFieldByte sent" "map asciiLower sent = map asciiLower wire"
    and "v \<noteq> []"
  shows "bind_header_field \<lparr>wire_name = wire, field_default = d, field_convert = conv\<rparr>
           (ctx\<lparr>ctx_r := (ctx_r ctx)\<lparr>Header := Header_Set (Header (ctx_r ctx)) sent v\<rparr>\<rparr>) =
         (case conv v of Some x \<Rightarrow> Bound x | None \<Rightarrow> BindError (''header.'' @ wire) v)"
  using Canonical_fold_sent[OF assms(1,2)] assms(3)
  by (simp add: bind_header_field_def testContext_Header_def Header_Get_def Header_Set_def
        split: option.split)

lemma params_test_header_binding:
  "bind_header_field \<lparr>wire_name = ''String'', field_default = None, field_convert = Some\<rparr>
     \<lparr>ctx_op = op, ctx_r = \<lparr>Header = Header_Set Map.empty ''string'' ''baz''\<rparr>, ctx_w = w\<rparr>
   = Bound ''baz''"
proof -
  have v: "list_all validHeaderFieldByte ''string''" by code_simp
  have f: "map asciiLower ''string'' = map asciiLower ''String''" by code_simp
  show ?thesis
    using bind_header_field_found[OF v f, of "''baz''" None Some
        "\<lparr>ctx_op = op, ctx_r = \<lparr>Header = Map.empty\<rparr>, ctx_w = w\<rparr>"]
    by simp
qed



section \<open>Properties of the resolver pipeline\<close>

lemma Pop_Push: "Pop (Push pb s) = pb \<and> Pop (PushIndex pb i) = pb"
  by (simp add: Pop_def Push_def PushIndex_def)

lemma render_from_append:
  "render_from first (xs @ ys) = render_from first xs @ render_from (first \<and> xs = []) ys"
  by (induction first xs rule: render_from.induct) simp_all

lemma With_nested:
  "With (PushIndex (Push (Push (Push [] ''body'') ''field1'') k) i) ''field2'' =
   ''body.field1.'' @ k @ ''['' @ decimal i @ ''].field2''"
  by (simp add: With_def render_def Push_def PushIndex_def)

lemma walk_items_structs:
  "resolver_walk_items test_capabilities ctx pb i
     (map (\<lambda>s. VStruct ''NestedResolversStruct'' [(''field2'', VString s)]) xs) =
   map (\<lambda>(j, s). \<lparr>Message = ''resolver error'', Location = With (PushIndex pb j) ''field2'',
                    Value = Some (VString s)\<rparr>) (zip [i ..< i + length xs] xs)"
proof (induction xs arbitrary: i)
  case Nil
  then show ?case by simp
next
  case (Cons x xs)
  have "[i ..< Suc (i + length xs)] = i # [Suc i ..< Suc (i + length xs)]"
    by (rule upt_conv_Cons) simp
  then have "[i ..< i + length (x # xs)] = i # [Suc i ..< Suc i + length xs]"
    by simp
  then show ?case
    using Cons.IH[of "Suc i"]
    by (simp add: test_capabilities_def NestedResolversStruct_Resolve_def)
qed

lemma walk_members_map:
  "resolver_walk_members test_capabilities ctx pb
     (map (\<lambda>(k, xs). (k, VSeq (map (\<lambda>s. VStruct ''NestedResolversStruct'' [(''field2'', VString s)]) xs))) m) =
   concat (map (\<lambda>(k, xs).
     map (\<lambda>(j, s). \<lparr>Message = ''resolver error'', Location = With (PushIndex (Push pb k) j) ''field2'',
                    Value = Some (VString s)\<rparr>) (zip [0 ..< length xs] xs)) m)"
proof (induction m)
  case Nil
  then show ?case by simp
next
  case (Cons e m)
  obtain k xs where e: "e = (k, xs)" by (cases e)
  show ?case
    using Cons.IH walk_items_structs[of ctx "Push pb k" 0 xs]
    by (simp add: e)
qed

text \<open>
  Claim C4. For the request of the test with any map under \<^verbatim>\<open>field1\<close>, the path-aware
  resolver of the record at index \<open>i\<close> of the sequence under key \<open>k\<close> reports the location
  \<^verbatim>\<open>body.field1.\<close>\<open>k\<close>\<^verbatim>\<open>[\<close>\<open>i\<close>\<^verbatim>\<open>].field2\<close>: the map key, the bracketed index and the field
  name, in traversal order.
\<close>

theorem nested_resolver_locations:
  "ResolverPipeline test_capabilities ctx (NestedResolverRequest field1) =
   concat (map (\<lambda>(k, xs).
     map (\<lambda>(i, s). \<lparr>Message = ''resolver error'',
                     Location = ''body.field1.'' @ k @ ''['' @ decimal i @ ''].field2'',
                     Value = Some (VString s)\<rparr>) (zip [0 ..< length xs] xs)) field1)"
  by (simp add: ResolverPipeline_def NestedResolverRequest_def test_capabilities_def
        walk_members_map With_nested)

text \<open>
  Claim C4, at the input of the test: the body \<^verbatim>\<open>{"field1": {"foo": [{"field2": "bar"}]}}\<close>
  yields the one error located at \<^verbatim>\<open>body.field1.foo[0].field2\<close>.
\<close>

theorem nested_resolver_locations_witness:
  "ResolverPipeline test_capabilities () (NestedResolverRequest [(''foo'', [''bar''])]) =
   [\<lparr>Message = ''resolver error'', Location = ''body.field1.foo[0].field2'',
     Value = Some (VString ''bar'')\<rparr>]"
proof -
  have "decimal 0 = ''0''" by code_simp
  then show ?thesis
    using nested_resolver_locations [of "()" "[(''foo'', [''bar''])]"]
    by simp
qed

end
